theory Spec2Isabelle
  imports Complex_Main
begin

section \<open>Python strings\<close>

text \<open>
  A Python \<open>str\<close> is modelled as a HOL \<open>string\<close>; a character stands for the code point
  of the same number, so the model covers the code points below 256. The functions of
  this section are the methods of \<open>str\<close> and of \<open>os.path\<close> (POSIX flavour) that
  \<open>pdf_extractor.py\<close> calls.
\<close>

definition isspace :: "char \<Rightarrow> bool" where
  \<comment> \<open>the code points below 256 that \<open>str.split()\<close> treats as whitespace\<close>
  "isspace c =
     (let n = (of_char c :: nat)
      in (9 \<le> n \<and> n \<le> 13) \<or> (28 \<le> n \<and> n \<le> 32) \<or> n = 133 \<or> n = 160)"

definition py_lower_char :: "char \<Rightarrow> char" where
  "py_lower_char c =
     (let n = (of_char c :: nat)
      in if (65 \<le> n \<and> n \<le> 90) \<or> (192 \<le> n \<and> n \<le> 222 \<and> n \<noteq> 215)
         then char_of (n + 32) else c)"

definition py_lower :: "string \<Rightarrow> string" where
  \<comment> \<open>\<open>s.lower()\<close>\<close>
  "py_lower s = map py_lower_char s"

definition ascii_lower :: "char \<Rightarrow> bool" where
  "ascii_lower c = (let n = (of_char c :: nat) in 97 \<le> n \<and> n \<le> 122)"

definition ascii_upper :: "char \<Rightarrow> bool" where
  "ascii_upper c = (let n = (of_char c :: nat) in 65 \<le> n \<and> n \<le> 90)"

fun py_title_from :: "bool \<Rightarrow> string \<Rightarrow> string" where
  \<comment> \<open>\<open>s.title()\<close> on ASCII text; the flag says whether the previous character was a letter\<close>
  "py_title_from previous_is_cased [] = []"
| "py_title_from previous_is_cased (c # cs) =
     (if ascii_lower c then
        (if previous_is_cased then c else char_of ((of_char c :: nat) - 32))
          # py_title_from True cs
      else if ascii_upper c then
        (if previous_is_cased then char_of ((of_char c :: nat) + 32) else c)
          # py_title_from True cs
      else c # py_title_from False cs)"

definition py_title :: "string \<Rightarrow> string" where
  "py_title s = py_title_from False s"

definition py_replace_underscore :: "string \<Rightarrow> string" where
  \<comment> \<open>\<open>s.replace("_", "")\<close>\<close>
  "py_replace_underscore s = filter (\<lambda>c. c \<noteq> CHR ''_'') s"

function py_split :: "string \<Rightarrow> string list" where
  \<comment> \<open>\<open>s.split()\<close>: the maximal runs of characters that are not whitespace\<close>
  "py_split s =
     (case dropWhile isspace s of
        [] \<Rightarrow> []
      | c # cs \<Rightarrow>
          (c # takeWhile (\<lambda>x. \<not> isspace x) cs) # py_split (dropWhile (\<lambda>x. \<not> isspace x) cs))"
  by pat_completeness auto
termination
proof (relation "measure length")
  show "wf (measure length)" by simp
next
  fix s :: string and c cs
  assume a: "dropWhile isspace s = c # cs"
  have "length (dropWhile (\<lambda>x. \<not> isspace x) cs) \<le> length cs"
    by (rule length_dropWhile_le)
  also have "length cs < length (dropWhile isspace s)"
    using a by simp
  also have "\<dots> \<le> length s"
    by (rule length_dropWhile_le)
  finally show "(dropWhile (\<lambda>x. \<not> isspace x) cs, s) \<in> measure length"
    by simp
qed

fun py_join :: "string \<Rightarrow> string list \<Rightarrow> string" where
  \<comment> \<open>\<open>sep.join(xs)\<close>\<close>
  "py_join sep [] = []"
| "py_join sep [x] = x"
| "py_join sep (x # y # ys) = x @ sep @ py_join sep (y # ys)"

definition digit_char :: "nat \<Rightarrow> char" where
  "digit_char d = char_of (48 + d)"

function str_nat :: "nat \<Rightarrow> string" where
  \<comment> \<open>\<open>str(n)\<close> of a non-negative integer\<close>
  "str_nat n = (if n < 10 then [digit_char n] else str_nat (n div 10) @ [digit_char (n mod 10)])"
  by pat_completeness auto
termination
  by (relation "measure id") auto

definition round_half_even :: "rat \<Rightarrow> int" where
  "round_half_even x =
     (let f = \<lfloor>x\<rfloor>; d = x - of_int f
      in if d < 1 / 2 then f else if 1 / 2 < d then f + 1 else if even f then f else f + 1)"

definition format_2f :: "rat \<Rightarrow> string" where
  \<comment> \<open>\<open>f"{x:.2f}"\<close> of a non-negative number\<close>
  "format_2f x =
     (let h = nat (round_half_even (x * 100))
      in str_nat (h div 100) @ ''.'' @ [digit_char (h mod 100 div 10), digit_char (h mod 10)])"

definition py_round2 :: "rat \<Rightarrow> rat" where
  \<comment> \<open>\<open>round(x, 2)\<close>\<close>
  "py_round2 x = of_int (round_half_even (x * 100)) / 100"

fun rfind_from :: "char \<Rightarrow> int \<Rightarrow> int \<Rightarrow> string \<Rightarrow> int" where
  "rfind_from c i found [] = found"
| "rfind_from c i found (x # xs) = rfind_from c (i + 1) (if x = c then i else found) xs"

definition rfind :: "string \<Rightarrow> char \<Rightarrow> int" where
  \<comment> \<open>\<open>s.rfind(c)\<close>: the index of the last occurrence, or -1\<close>
  "rfind s c = rfind_from c 0 (- 1) s"

definition slice :: "string \<Rightarrow> int \<Rightarrow> int \<Rightarrow> string" where
  \<comment> \<open>\<open>s[i:j]\<close> for indices that are not negative\<close>
  "slice s i j = take (nat j - nat i) (drop (nat i) s)"

definition splitext :: "string \<Rightarrow> string \<times> string" where
  \<comment> \<open>\<open>os.path.splitext\<close>: the extension starts at the last dot of the last path component,
      unless only dots stand before it in that component\<close>
  "splitext p =
     (let sepIndex = rfind p (CHR ''/'');
          dotIndex = rfind p (CHR ''.'')
      in if sepIndex < dotIndex
            \<and> list_ex (\<lambda>c. c \<noteq> CHR ''.'') (slice p (sepIndex + 1) dotIndex)
         then (take (nat dotIndex) p, drop (nat dotIndex) p)
         else (p, []))"

definition basename :: "string \<Rightarrow> string" where
  \<comment> \<open>\<open>os.path.basename\<close>\<close>
  "basename p = drop (nat (rfind p (CHR ''/'') + 1)) p"

section \<open>Exceptions, the logger and actions\<close>

text \<open>
  An exception is its class, as far as the handlers of \<open>pdf_extractor.py\<close> tell classes
  apart, and its message \<open>str(e)\<close>. \<open>OtherException\<close> stands for every subclass of
  \<open>Exception\<close> that is neither a \<open>FileNotFoundError\<close> nor a \<open>ValueError\<close> (PyPDF2's
  \<open>PdfReadError\<close>, for instance); \<open>Exception\<close> is the base class itself, which the
  last handler of each operation raises.
\<close>

datatype pyexn =
    FileNotFoundError string
  | ValueError string
  | OtherException string
  | Exception string

fun str_exn :: "pyexn \<Rightarrow> string" where
  "str_exn (FileNotFoundError m) = m"
| "str_exn (ValueError m) = m"
| "str_exn (OtherException m) = m"
| "str_exn (Exception m) = m"

datatype log_level = DEBUG | INFO | WARNING | ERROR

type_synonym log = "(log_level \<times> string) list"

text \<open>
  The module's only state is its logger. An action takes the records logged so far and
  returns its result, a raised exception (\<open>Inl\<close>) or a value (\<open>Inr\<close>), with the records
  logged after it. The log holds every record passed to the logger, whatever level the
  handlers print.
\<close>

type_synonym 'a action = "log \<Rightarrow> (pyexn + 'a) \<times> log"

definition returns :: "'a \<Rightarrow> 'a action" where
  "returns x l = (Inr x, l)"

definition raises :: "pyexn \<Rightarrow> 'a action" where
  "raises e l = (Inl e, l)"

definition call :: "pyexn + 'a \<Rightarrow> 'a action" where
  \<comment> \<open>a call into the PDF library, which returns or raises\<close>
  "call r l = (r, l)"

definition logger :: "log_level \<Rightarrow> string \<Rightarrow> unit action" where
  "logger level msg l = (Inr (), l @ [(level, msg)])"

definition andthen :: "'a action \<Rightarrow> ('a \<Rightarrow> 'b action) \<Rightarrow> 'b action" where
  \<comment> \<open>one statement after another: an exception skips the rest\<close>
  "andthen m f l = (case m l of (Inl e, l') \<Rightarrow> (Inl e, l') | (Inr x, l') \<Rightarrow> f x l')"

definition try_except :: "'a action \<Rightarrow> (pyexn \<Rightarrow> 'a action) \<Rightarrow> 'a action" where
  "try_except body handler l =
     (case body l of (Inl e, l') \<Rightarrow> handler e l' | (Inr x, l') \<Rightarrow> (Inr x, l'))"

section \<open>Configuration (config.py)\<close>

record config =
  SUPPORTED_EXTENSIONS :: "string list"
  MAX_FILE_SIZE_MB :: nat
  PRESERVE_LINE_BREAKS :: bool
  REMOVE_EXTRA_WHITESPACE :: bool
  METADATA_FIELDS :: "string list"

definition config_py :: config where
  "config_py =
     \<lparr> SUPPORTED_EXTENSIONS = [''.pdf''],
       MAX_FILE_SIZE_MB = 50,
       PRESERVE_LINE_BREAKS = True,
       REMOVE_EXTRA_WHITESPACE = True,
       METADATA_FIELDS = [''title'', ''author'', ''subject'', ''creator'', ''producer'',
                          ''creation_date'', ''modification_date''] \<rparr>"

section \<open>The file system and the PDF library\<close>

text \<open>
  The operations read the file system through \<open>os.path\<close> and the document through
  PyPDF2's \<open>PdfReader\<close>. Both are outside the repository: the model takes them as
  a parameter, the world, in which every call into the library returns or raises.
\<close>

datatype page = Page (extract_text: "pyexn + string")

record pdf_reader =
  is_encrypted :: "pyexn + bool"
  pages :: "pyexn + page list"
  metadata :: "pyexn + (string \<times> string) list option"

record world =
  path_exists :: "string \<Rightarrow> bool"
  getsize :: "string \<Rightarrow> nat"
  abspath :: "string \<Rightarrow> string"
  PdfReader :: "string \<Rightarrow> pyexn + pdf_reader"

section \<open>validate_pdf_file\<close>

definition file_size_mb :: "world \<Rightarrow> string \<Rightarrow> rat" where
  \<comment> \<open>\<open>os.path.getsize(file_path) / (1024 * 1024)\<close>, which is exact in floating point
      for every size below \<open>2 ^ 53\<close> bytes\<close>
  "file_size_mb w file_path = of_nat (getsize w file_path) / (1024 * 1024)"

definition validate_pdf_file :: "world \<Rightarrow> config \<Rightarrow> string \<Rightarrow> bool action" where
  "validate_pdf_file w cfg file_path =
     (if \<not> path_exists w file_path then
        raises (FileNotFoundError (''File not found: '' @ file_path))
      else
        let file_ext = py_lower (snd (splitext file_path)) in
        if file_ext \<notin> set (SUPPORTED_EXTENSIONS cfg) then
          raises (ValueError (''Unsupported file type: '' @ file_ext @ ''. Expected PDF file.''))
        else
          if of_nat (MAX_FILE_SIZE_MB cfg) < file_size_mb w file_path then
            raises (ValueError (''File size ('' @ format_2f (file_size_mb w file_path)
                      @ ''MB) exceeds maximum allowed size (''
                      @ str_nat (MAX_FILE_SIZE_MB cfg) @ ''MB)''))
          else
            andthen (logger INFO (''File validation passed: '' @ file_path))
              (\<lambda>_. returns True))"

section \<open>extract_text_from_pdf\<close>

definition remove_extra_whitespace :: "config \<Rightarrow> string \<Rightarrow> string" where
  \<comment> \<open>\<open>if REMOVE_EXTRA_WHITESPACE: page_text = ' '.join(page_text.split())\<close>\<close>
  "remove_extra_whitespace cfg page_text =
     (if REMOVE_EXTRA_WHITESPACE cfg then py_join '' '' (py_split page_text) else page_text)"

fun extract_text_loop ::
  "config \<Rightarrow> nat \<Rightarrow> nat \<Rightarrow> page list \<Rightarrow> string list \<Rightarrow> string list action" where
  \<comment> \<open>\<open>for page_num, page in enumerate(reader.pages, start=1)\<close>, with \<open>all_text\<close>\<close>
  "extract_text_loop cfg num_pages page_num [] all_text = returns all_text"
| "extract_text_loop cfg num_pages page_num (page # rest) all_text =
     andthen (logger DEBUG (''Extracting text from page '' @ str_nat page_num @ ''/''
                @ str_nat num_pages)) (\<lambda>_.
     andthen (call (extract_text page)) (\<lambda>page_text.
     extract_text_loop cfg num_pages (page_num + 1) rest
       (all_text @ [remove_extra_whitespace cfg page_text])))"

definition encrypted_message :: string where
  "encrypted_message = ''Cannot extract text from encrypted PDF. Please decrypt first.''"

definition check_not_encrypted :: "string \<Rightarrow> bool \<Rightarrow> unit action" where
  \<comment> \<open>\<open>if reader.is_encrypted: ... raise ValueError(...)\<close>\<close>
  "check_not_encrypted file_path encrypted =
     (if encrypted then
        andthen (logger WARNING (''PDF is encrypted: '' @ file_path))
          (\<lambda>_. raises (ValueError encrypted_message))
      else returns ())"

definition separator :: "config \<Rightarrow> string" where
  \<comment> \<open>\<open>'\n\n' if PRESERVE_LINE_BREAKS else ' '\<close>\<close>
  "separator cfg = (if PRESERVE_LINE_BREAKS cfg then ''\<newline>\<newline>'' else '' '')"

definition extract_text_from_pdf :: "world \<Rightarrow> config \<Rightarrow> string \<Rightarrow> string action" where
  "extract_text_from_pdf w cfg file_path =
     try_except
       (andthen (validate_pdf_file w cfg file_path) (\<lambda>_.
        andthen (logger INFO (''Opening PDF file: '' @ file_path)) (\<lambda>_.
        andthen (call (PdfReader w file_path)) (\<lambda>reader.
        andthen (call (is_encrypted reader)) (\<lambda>encrypted.
        andthen (check_not_encrypted file_path encrypted) (\<lambda>_.
        andthen (call (pages reader)) (\<lambda>reader_pages.
        let num_pages = length reader_pages in
        andthen (logger INFO (''PDF has '' @ str_nat num_pages @ '' pages'')) (\<lambda>_.
        andthen (extract_text_loop cfg num_pages 1 reader_pages []) (\<lambda>all_text.
        let combined_text = py_join (separator cfg) all_text in
        andthen (logger INFO (''Successfully extracted '' @ str_nat (length combined_text)
                   @ '' characters from '' @ str_nat num_pages @ '' pages'')) (\<lambda>_.
        returns combined_text))))))))))
       (\<lambda>e. case e of
          FileNotFoundError m \<Rightarrow>
            andthen (logger ERROR (''File not found: '' @ m)) (\<lambda>_. raises e)
        | ValueError m \<Rightarrow>
            andthen (logger ERROR (''Validation error: '' @ m)) (\<lambda>_. raises e)
        | _ \<Rightarrow>
            andthen (logger ERROR (''Error extracting text from PDF: '' @ str_exn e)) (\<lambda>_.
            raises (Exception (''Failed to extract text: '' @ str_exn e))))"

section \<open>extract_text_by_pages\<close>

record page_data =
  page_number :: nat
  "text" :: string
  char_count :: nat

fun extract_pages_loop ::
  "config \<Rightarrow> nat \<Rightarrow> nat \<Rightarrow> page list \<Rightarrow> page_data list \<Rightarrow> page_data list action" where
  \<comment> \<open>\<open>for page_num, page in enumerate(reader.pages, start=1)\<close>, with \<open>pages_data\<close>\<close>
  "extract_pages_loop cfg num_pages page_num [] pages_data = returns pages_data"
| "extract_pages_loop cfg num_pages page_num (page # rest) pages_data =
     andthen (logger DEBUG (''Processing page '' @ str_nat page_num @ ''/''
                @ str_nat num_pages)) (\<lambda>_.
     andthen (call (extract_text page)) (\<lambda>page_text.
     let page_text = remove_extra_whitespace cfg page_text in
     extract_pages_loop cfg num_pages (page_num + 1) rest
       (pages_data @ [\<lparr> page_number = page_num, text = page_text,
                         char_count = length page_text \<rparr>])))"

definition extract_text_by_pages ::
  "world \<Rightarrow> config \<Rightarrow> string \<Rightarrow> page_data list action" where
  "extract_text_by_pages w cfg file_path =
     try_except
       (andthen (validate_pdf_file w cfg file_path) (\<lambda>_.
        andthen (logger INFO (''Opening PDF file for page-by-page extraction: '' @ file_path))
          (\<lambda>_.
        andthen (call (PdfReader w file_path)) (\<lambda>reader.
        andthen (call (is_encrypted reader)) (\<lambda>encrypted.
        andthen (check_not_encrypted file_path encrypted) (\<lambda>_.
        andthen (call (pages reader)) (\<lambda>reader_pages.
        let num_pages = length reader_pages in
        andthen (extract_pages_loop cfg num_pages 1 reader_pages []) (\<lambda>pages_data.
        andthen (logger INFO (''Successfully extracted text from '' @ str_nat num_pages
                   @ '' pages'')) (\<lambda>_.
        returns pages_data)))))))))
       (\<lambda>e. case e of
          FileNotFoundError m \<Rightarrow> andthen (logger ERROR (''Error: '' @ m)) (\<lambda>_. raises e)
        | ValueError m \<Rightarrow> andthen (logger ERROR (''Error: '' @ m)) (\<lambda>_. raises e)
        | _ \<Rightarrow>
            andthen (logger ERROR (''Error extracting text by pages: '' @ str_exn e)) (\<lambda>_.
            raises (Exception (''Failed to extract text by pages: '' @ str_exn e))))"

section \<open>get_pdf_metadata\<close>

text \<open>
  The metadata dictionary holds values of several Python types. The document-info
  dictionary of the reader (\<open>reader.metadata\<close>) is \<open>None\<close> or a list of the entries
  it holds; an empty one is as false as \<open>None\<close> in \<open>if pdf_metadata:\<close>.
\<close>

datatype pyvalue = PyStr string | PyInt nat | PyFloat rat | PyBool bool | PyNone

definition field_key :: "string \<Rightarrow> string" where
  \<comment> \<open>\<open>f'/{field.title().replace("_", "")}'\<close>\<close>
  "field_key field = ''/'' @ py_replace_underscore (py_title field)"

fun metadata_fields_loop ::
  "string list \<Rightarrow> (string \<times> string) list \<Rightarrow> (string \<rightharpoonup> pyvalue) \<Rightarrow> (string \<rightharpoonup> pyvalue)" where
  \<comment> \<open>\<open>for field in METADATA_FIELDS\<close>\<close>
  "metadata_fields_loop [] pdf_metadata md = md"
| "metadata_fields_loop (field # rest) pdf_metadata md =
     metadata_fields_loop rest pdf_metadata
       (case map_of pdf_metadata (field_key field) of
          Some v \<Rightarrow> md(field \<mapsto> PyStr v)
        | None \<Rightarrow> md(field \<mapsto> PyNone))"

definition extract_pdf_metadata ::
  "config \<Rightarrow> (string \<times> string) list option \<Rightarrow> (string \<rightharpoonup> pyvalue) \<Rightarrow> (string \<rightharpoonup> pyvalue)" where
  \<comment> \<open>\<open>if pdf_metadata: for field in METADATA_FIELDS: ...\<close>\<close>
  "extract_pdf_metadata cfg pdf_metadata md =
     (case pdf_metadata of
        None \<Rightarrow> md
      | Some d \<Rightarrow> if d = [] then md else metadata_fields_loop (METADATA_FIELDS cfg) d md)"

definition float_repr2 :: "rat \<Rightarrow> string" where
  \<comment> \<open>\<open>str(x)\<close> of a non-negative float with at most two decimals\<close>
  "float_repr2 x =
     (let h = nat (round_half_even (x * 100))
      in str_nat (h div 100) @ ''.'' @ [digit_char (h mod 100 div 10)]
           @ (if h mod 10 = 0 then [] else [digit_char (h mod 10)]))"

fun py_str :: "pyvalue \<Rightarrow> string" where
  \<comment> \<open>\<open>str(v)\<close>, as an f-string formats a value\<close>
  "py_str (PyStr s) = s"
| "py_str (PyInt n) = str_nat n"
| "py_str (PyFloat x) = float_repr2 x"
| "py_str (PyBool b) = (if b then ''True'' else ''False'')"
| "py_str PyNone = ''None''"

definition subscript :: "(string \<rightharpoonup> pyvalue) \<Rightarrow> string \<Rightarrow> pyvalue action" where
  \<comment> \<open>\<open>d[key]\<close>, a \<open>KeyError\<close> when the key is missing\<close>
  "subscript d key =
     (case d key of
        Some v \<Rightarrow> returns v
      | None \<Rightarrow> raises (OtherException ([CHR 0x27] @ key @ [CHR 0x27])))"

definition get_pdf_metadata ::
  "world \<Rightarrow> config \<Rightarrow> string \<Rightarrow> (string \<rightharpoonup> pyvalue) action" where
  "get_pdf_metadata w cfg file_path =
     try_except
       (andthen (validate_pdf_file w cfg file_path) (\<lambda>_.
        andthen (logger INFO (''Extracting metadata from: '' @ file_path)) (\<lambda>_.
        andthen (call (PdfReader w file_path)) (\<lambda>reader.
        andthen (call (pages reader)) (\<lambda>reader_pages.
        andthen (call (is_encrypted reader)) (\<lambda>encrypted.
        let md = [''file_name'' \<mapsto> PyStr (basename file_path),
                  ''file_path'' \<mapsto> PyStr (abspath w file_path),
                  ''file_size_mb'' \<mapsto> PyFloat (py_round2 (file_size_mb w file_path)),
                  ''page_count'' \<mapsto> PyInt (length reader_pages),
                  ''is_encrypted'' \<mapsto> PyBool encrypted] in
        andthen (call (metadata reader)) (\<lambda>pdf_metadata.
        let md = extract_pdf_metadata cfg pdf_metadata md in
        andthen (subscript md ''page_count'') (\<lambda>page_count.
        andthen (logger INFO (''Successfully extracted metadata: '' @ py_str page_count
                   @ '' pages'')) (\<lambda>_.
        returns md)))))))))
       (\<lambda>e. case e of
          FileNotFoundError m \<Rightarrow> andthen (logger ERROR (''Error: '' @ m)) (\<lambda>_. raises e)
        | ValueError m \<Rightarrow> andthen (logger ERROR (''Error: '' @ m)) (\<lambda>_. raises e)
        | _ \<Rightarrow>
            andthen (logger ERROR (''Error extracting metadata: '' @ str_exn e)) (\<lambda>_.
            raises (Exception (''Failed to extract metadata: '' @ str_exn e))))"

section \<open>Notions used to state the properties\<close>

definition validation_outcome :: "world \<Rightarrow> config \<Rightarrow> string \<Rightarrow> pyexn + bool" where
  "validation_outcome w cfg file_path = fst (validate_pdf_file w cfg file_path [])"

definition passes_validation :: "world \<Rightarrow> config \<Rightarrow> string \<Rightarrow> bool" where
  "passes_validation w cfg file_path = (validation_outcome w cfg file_path = Inr True)"

definition extension_supported :: "config \<Rightarrow> string \<Rightarrow> bool" where
  "extension_supported cfg file_path =
     (\<exists>e \<in> set (SUPPORTED_EXTENSIONS cfg). py_lower e = py_lower (snd (splitext file_path)))"

definition size_within_limit :: "world \<Rightarrow> config \<Rightarrow> string \<Rightarrow> bool" where
  "size_within_limit w cfg file_path = (file_size_mb w file_path \<le> of_nat (MAX_FILE_SIZE_MB cfg))"

definition raw_pages :: "string list \<Rightarrow> page list" where
  \<comment> \<open>pages whose text extraction succeeds, with these raw texts\<close>
  "raw_pages texts = map (\<lambda>t. Page (Inr t)) texts"

text \<open>
  A sample file system, in which \<open>PdfReader\<close> opens every path as the given document:
  \<open>big.pdf\<close> is one byte larger than 50 MB.
\<close>

definition world_with :: "pdf_reader \<Rightarrow> world" where
  "world_with reader =
     \<lparr> path_exists = (\<lambda>p. p \<in> set [''a.pdf'', ''Report.PDF'', ''notes.txt'', ''big.pdf'']),
       getsize = (\<lambda>p. if p = ''big.pdf'' then 52428801 else 1000),
       abspath = (\<lambda>p. ''/home/user/'' @ p),
       PdfReader = (\<lambda>p. Inr reader) \<rparr>"

definition sample_reader :: pdf_reader where
  "sample_reader =
     \<lparr> is_encrypted = Inr False,
       pages = Inr [Page (Inr ''  Hello   World ''), Page (Inr ''two'')],
       metadata = Inr (Some [(''/Title'', ''Sample'')]) \<rparr>"

definition sample_world :: world where
  "sample_world = world_with sample_reader"

fun first_failure :: "page list \<Rightarrow> pyexn option" where
  "first_failure [] = None"
| "first_failure (page # rest) =
     (case extract_text page of Inl e \<Rightarrow> Some e | Inr _ \<Rightarrow> first_failure rest)"

fun page_texts :: "page list \<Rightarrow> string list" where
  "page_texts [] = []"
| "page_texts (page # rest) =
     (case extract_text page of Inl _ \<Rightarrow> page_texts rest | Inr t \<Rightarrow> t # page_texts rest)"

fun page_records :: "config \<Rightarrow> nat \<Rightarrow> string list \<Rightarrow> page_data list" where
  "page_records cfg page_num [] = []"
| "page_records cfg page_num (t # ts) =
     \<lparr> page_number = page_num, text = remove_extra_whitespace cfg t,
       char_count = length (remove_extra_whitespace cfg t) \<rparr>
       # page_records cfg (page_num + 1) ts"

definition reraised :: "string \<Rightarrow> pyexn \<Rightarrow> pyexn" where
  \<comment> \<open>what the \<open>except\<close> clauses of an operation raise for a caught exception\<close>
  "reraised context_msg e =
     (case e of
        FileNotFoundError m \<Rightarrow> e
      | ValueError m \<Rightarrow> e
      | _ \<Rightarrow> Exception (context_msg @ str_exn e))"

definition basic_metadata :: "world \<Rightarrow> string \<Rightarrow> nat \<Rightarrow> bool \<Rightarrow> (string \<rightharpoonup> pyvalue)" where
  "basic_metadata w file_path n encrypted =
     [''file_name'' \<mapsto> PyStr (basename file_path),
      ''file_path'' \<mapsto> PyStr (abspath w file_path),
      ''file_size_mb'' \<mapsto> PyFloat (py_round2 (file_size_mb w file_path)),
      ''page_count'' \<mapsto> PyInt n,
      ''is_encrypted'' \<mapsto> PyBool encrypted]"

text \<open>
  The spec's wording of whitespace normalisation: every run of whitespace becomes one
  space, then leading and trailing whitespace is trimmed.
\<close>

function collapse_whitespace_runs :: "string \<Rightarrow> string" where
  "collapse_whitespace_runs [] = []"
| "collapse_whitespace_runs (c # cs) =
     (if isspace c then CHR '' '' # collapse_whitespace_runs (dropWhile isspace cs)
      else c # collapse_whitespace_runs cs)"
  by pat_completeness auto
termination
  by (relation "measure length") (auto simp: less_Suc_eq_le length_dropWhile_le)

definition rstrip :: "string \<Rightarrow> string" where
  "rstrip s = rev (dropWhile isspace (rev s))"

definition trim_whitespace :: "string \<Rightarrow> string" where
  "trim_whitespace s = rstrip (dropWhile isspace s)"

text \<open>
  Sample documents: one without pages or document information, and two encrypted ones.
  The first needs a password: the reader opens it and reports it as encrypted, and raises
  when asked for its pages or its document information. The second is encrypted with an
  empty user password: the reader decrypts it when it opens it, still reports it as
  encrypted, and gives its pages and document information.
\<close>

definition empty_document :: pdf_reader where
  "empty_document = \<lparr> is_encrypted = Inr False, pages = Inr [], metadata = Inr None \<rparr>"



definition reader_failure_text :: "world \<Rightarrow> string \<Rightarrow> pyexn option" where
  "reader_failure_text w file_path =
     (case PdfReader w file_path of
        Inl e \<Rightarrow> Some e
      | Inr reader \<Rightarrow>
     (case is_encrypted reader of
        Inl e \<Rightarrow> Some e
      | Inr encrypted \<Rightarrow>
     if encrypted then None
     else
     (case pages reader of
        Inl e \<Rightarrow> Some e
      | Inr ps \<Rightarrow> first_failure ps)))"

definition reader_failure_metadata :: "world \<Rightarrow> string \<Rightarrow> pyexn option" where
  "reader_failure_metadata w file_path =
     (case PdfReader w file_path of
        Inl e \<Rightarrow> Some e
      | Inr reader \<Rightarrow>
     (case pages reader of
        Inl e \<Rightarrow> Some e
      | Inr ps \<Rightarrow>
     (case is_encrypted reader of
        Inl e \<Rightarrow> Some e
      | Inr encrypted \<Rightarrow>
     (case metadata reader of
        Inl e \<Rightarrow> Some e
      | Inr info \<Rightarrow> None))))"

text \<open>
  More sample documents: one without a document-info dictionary, one whose second page
  and document information raise a \<open>ValueError\<close>, and one where they raise another
  error of the library.
\<close>

definition document_without_info :: pdf_reader where
  "document_without_info =
     \<lparr> is_encrypted = Inr False, pages = Inr [Page (Inr ''one'')], metadata = Inr None \<rparr>"

definition value_error_reader :: pdf_reader where
  "value_error_reader =
     \<lparr> is_encrypted = Inr False,
       pages = Inr [Page (Inr ''one''), Page (Inl (ValueError ''bad page''))],
       metadata = Inl (ValueError ''bad info'') \<rparr>"

definition broken_reader :: pdf_reader where
  "broken_reader =
     \<lparr> is_encrypted = Inr False,
       pages = Inr [Page (Inr ''one''), Page (Inl (OtherException ''EOF marker not found''))],
       metadata = Inl (OtherException ''bad info'') \<rparr>"

text \<open>
  What an action does to the log: a quiet action gives one result whatever the log
  holds and appends records that are not errors; an action that logs a failure once
  appends, besides such records, exactly one \<open>ERROR\<close> record when it raises, and none
  when it returns.
\<close>

definition error_records :: "log \<Rightarrow> log" where
  "error_records es = filter (\<lambda>r. fst r = ERROR) es"

definition quiet :: "'a action \<Rightarrow> bool" where
  "quiet m = (\<exists>r es. (\<forall>l. m l = (r, l @ es)) \<and> error_records es = [])"

definition logs_failure_once :: "'a action \<Rightarrow> bool" where
  "logs_failure_once m =
     (\<exists>r es. (\<forall>l. m l = (r, l @ es)) \<and> length (error_records es) = (if isl r then 1 else 0))"

section \<open>Outcomes of the operations\<close>

lemma fst_returns [simp]: "fst (returns x l) = Inr x"
  by (simp add: returns_def)

lemma fst_raises [simp]: "fst (raises e l) = Inl e"
  by (simp add: raises_def)

lemma fst_call [simp]: "fst (call r l) = r"
  by (simp add: call_def)

lemma fst_logger [simp]: "fst (logger level msg l) = Inr ()"
  by (simp add: logger_def)

lemma fst_andthen:
  "fst (andthen m f l) = (case fst (m l) of Inl e \<Rightarrow> Inl e | Inr x \<Rightarrow> fst (f x (snd (m l))))"
  by (simp add: andthen_def split: prod.splits sum.splits)

lemma fst_try_except:
  "fst (try_except body handler l) =
     (case fst (body l) of Inl e \<Rightarrow> fst (handler e (snd (body l))) | Inr x \<Rightarrow> Inr x)"
  by (simp add: try_except_def split: prod.splits sum.splits)

lemma validate_cases:
  "fst (validate_pdf_file w cfg file_path l) =
     (if \<not> path_exists w file_path then Inl (FileNotFoundError (''File not found: '' @ file_path))
      else if py_lower (snd (splitext file_path)) \<notin> set (SUPPORTED_EXTENSIONS cfg) then
        Inl (ValueError (''Unsupported file type: '' @ py_lower (snd (splitext file_path))
               @ ''. Expected PDF file.''))
      else if of_nat (MAX_FILE_SIZE_MB cfg) < file_size_mb w file_path then
        Inl (ValueError (''File size ('' @ format_2f (file_size_mb w file_path)
               @ ''MB) exceeds maximum allowed size ('' @ str_nat (MAX_FILE_SIZE_MB cfg) @ ''MB)''))
      else Inr True)"
  by (simp add: validate_pdf_file_def Let_def fst_andthen)

lemma fst_validate [simp]:
  "fst (validate_pdf_file w cfg file_path l) = validation_outcome w cfg file_path"
  unfolding validation_outcome_def by (simp only: validate_cases)

lemma py_lower_idem: "py_lower (py_lower s) = py_lower s"
proof -
  have "py_lower_char (py_lower_char c) = py_lower_char c" for c
    by (auto simp: py_lower_char_def Let_def)
  then show ?thesis by (simp add: py_lower_def)
qed

lemma extension_supported_iff:
  assumes "list_all (\<lambda>e. py_lower e = e) (SUPPORTED_EXTENSIONS cfg)"
  shows "extension_supported cfg file_path
           = (py_lower (snd (splitext file_path)) \<in> set (SUPPORTED_EXTENSIONS cfg))"
proof
  assume "extension_supported cfg file_path"
  then obtain e where e: "e \<in> set (SUPPORTED_EXTENSIONS cfg)"
      "py_lower e = py_lower (snd (splitext file_path))"
    by (auto simp: extension_supported_def)
  from assms e(1) have "py_lower e = e" by (simp add: list_all_iff)
  with e show "py_lower (snd (splitext file_path)) \<in> set (SUPPORTED_EXTENSIONS cfg)" by simp
next
  assume "py_lower (snd (splitext file_path)) \<in> set (SUPPORTED_EXTENSIONS cfg)"
  then show "extension_supported cfg file_path"
    unfolding extension_supported_def
    by (rule bexI [rotated]) (simp add: py_lower_idem)
qed

lemma fst_extract_text_loop:
  "fst (extract_text_loop cfg n k ps acc l) =
     (case first_failure ps of
        Some e \<Rightarrow> Inl e
      | None \<Rightarrow> Inr (acc @ map (remove_extra_whitespace cfg) (page_texts ps)))"
proof (induction ps arbitrary: k acc l)
  case Nil
  show ?case by simp
next
  case (Cons page rest)
  show ?case
    by (cases "extract_text page") (simp_all add: fst_andthen Cons.IH split: option.splits)
qed

lemma fst_extract_pages_loop:
  "fst (extract_pages_loop cfg n k ps acc l) =
     (case first_failure ps of
        Some e \<Rightarrow> Inl e
      | None \<Rightarrow> Inr (acc @ page_records cfg k (page_texts ps)))"
proof (induction ps arbitrary: k acc l)
  case Nil
  show ?case by simp
next
  case (Cons page rest)
  show ?case
    by (cases "extract_text page") (simp_all add: fst_andthen Cons.IH Let_def split: option.splits)
qed

lemma fst_check_not_encrypted:
  "fst (check_not_encrypted file_path encrypted l) =
     (if encrypted then Inl (ValueError encrypted_message) else Inr ())"
  by (simp add: check_not_encrypted_def fst_andthen)

lemma fst_handler:
  "fst ((case e of
          FileNotFoundError m \<Rightarrow> andthen (logger ERROR (a m)) (\<lambda>_. raises e)
        | ValueError m \<Rightarrow> andthen (logger ERROR (b m)) (\<lambda>_. raises e)
        | _ \<Rightarrow> andthen (logger ERROR c) (\<lambda>_. raises (Exception (context_msg @ str_exn e)))) l)
     = Inl (reraised context_msg e)"
  by (cases e) (simp_all add: fst_andthen reraised_def)

lemma fst_extract_text_from_pdf:
  "fst (extract_text_from_pdf w cfg file_path l) =
     (case validation_outcome w cfg file_path of
        Inl e \<Rightarrow> Inl (reraised ''Failed to extract text: '' e)
      | Inr _ \<Rightarrow>
     (case PdfReader w file_path of
        Inl e \<Rightarrow> Inl (reraised ''Failed to extract text: '' e)
      | Inr reader \<Rightarrow>
     (case is_encrypted reader of
        Inl e \<Rightarrow> Inl (reraised ''Failed to extract text: '' e)
      | Inr encrypted \<Rightarrow>
     if encrypted then Inl (ValueError encrypted_message)
     else
     (case pages reader of
        Inl e \<Rightarrow> Inl (reraised ''Failed to extract text: '' e)
      | Inr ps \<Rightarrow>
     (case first_failure ps of
        Some e \<Rightarrow> Inl (reraised ''Failed to extract text: '' e)
      | None \<Rightarrow>
          Inr (py_join (separator cfg) (map (remove_extra_whitespace cfg) (page_texts ps))))))))"
  unfolding extract_text_from_pdf_def
  by (simp add: fst_try_except fst_andthen fst_handler fst_check_not_encrypted
        fst_extract_text_loop Let_def reraised_def split: sum.splits option.splits)

lemma fst_extract_text_by_pages:
  "fst (extract_text_by_pages w cfg file_path l) =
     (case validation_outcome w cfg file_path of
        Inl e \<Rightarrow> Inl (reraised ''Failed to extract text by pages: '' e)
      | Inr _ \<Rightarrow>
     (case PdfReader w file_path of
        Inl e \<Rightarrow> Inl (reraised ''Failed to extract text by pages: '' e)
      | Inr reader \<Rightarrow>
     (case is_encrypted reader of
        Inl e \<Rightarrow> Inl (reraised ''Failed to extract text by pages: '' e)
      | Inr encrypted \<Rightarrow>
     if encrypted then Inl (ValueError encrypted_message)
     else
     (case pages reader of
        Inl e \<Rightarrow> Inl (reraised ''Failed to extract text by pages: '' e)
      | Inr ps \<Rightarrow>
     (case first_failure ps of
        Some e \<Rightarrow> Inl (reraised ''Failed to extract text by pages: '' e)
      | None \<Rightarrow> Inr (page_records cfg 1 (page_texts ps)))))))"
  unfolding extract_text_by_pages_def
  by (simp add: fst_try_except fst_andthen fst_handler fst_check_not_encrypted
        fst_extract_pages_loop Let_def reraised_def split: sum.splits option.splits)

lemma metadata_fields_loop_keeps:
  "md key \<noteq> None \<Longrightarrow> metadata_fields_loop fs d md key \<noteq> None"
  by (induction fs arbitrary: md) (simp_all split: option.splits)

lemma extract_pdf_metadata_keeps:
  "md key \<noteq> None \<Longrightarrow> extract_pdf_metadata cfg info md key \<noteq> None"
  using metadata_fields_loop_keeps [of md key]
  by (simp add: extract_pdf_metadata_def split: option.splits)

lemma page_count_present:
  "extract_pdf_metadata cfg info (basic_metadata w file_path n encrypted) ''page_count''
     \<noteq> None"
  by (rule extract_pdf_metadata_keeps) (simp add: basic_metadata_def)

lemma fst_subscript:
  "d key \<noteq> None \<Longrightarrow> fst (subscript d key l) = Inr (the (d key))"
  by (auto simp: subscript_def)

lemma fst_get_pdf_metadata:
  "fst (get_pdf_metadata w cfg file_path l) =
     (case validation_outcome w cfg file_path of
        Inl e \<Rightarrow> Inl (reraised ''Failed to extract metadata: '' e)
      | Inr _ \<Rightarrow>
     (case PdfReader w file_path of
        Inl e \<Rightarrow> Inl (reraised ''Failed to extract metadata: '' e)
      | Inr reader \<Rightarrow>
     (case pages reader of
        Inl e \<Rightarrow> Inl (reraised ''Failed to extract metadata: '' e)
      | Inr ps \<Rightarrow>
     (case is_encrypted reader of
        Inl e \<Rightarrow> Inl (reraised ''Failed to extract metadata: '' e)
      | Inr encrypted \<Rightarrow>
     (case metadata reader of
        Inl e \<Rightarrow> Inl (reraised ''Failed to extract metadata: '' e)
      | Inr info \<Rightarrow>
          Inr (extract_pdf_metadata cfg info
                 (basic_metadata w file_path (length ps) encrypted)))))))"
  unfolding get_pdf_metadata_def basic_metadata_def [symmetric]
  by (simp add: fst_try_except fst_andthen fst_handler Let_def reraised_def
        fst_subscript page_count_present split: sum.splits option.splits)

section \<open>What the operations log\<close>

lemma error_records_append [simp]:
  "error_records (xs @ ys) = error_records xs @ error_records ys"
  by (simp add: error_records_def)

lemma quiet_returns: "quiet (returns x)"
  unfolding quiet_def returns_def
  by (intro exI [of _ "[]"] exI) (simp add: error_records_def)

lemma quiet_raises: "quiet (raises e)"
  unfolding quiet_def raises_def
  by (intro exI [of _ "[]"] exI) (simp add: error_records_def)

lemma quiet_call: "quiet (call r)"
  unfolding quiet_def call_def
  by (intro exI [of _ "[]"] exI) (simp add: error_records_def)

lemma quiet_logger: "level \<noteq> ERROR \<Longrightarrow> quiet (logger level msg)"
  unfolding quiet_def logger_def
  by (intro exI [of _ "[(level, msg)]"] exI) (simp add: error_records_def)

lemma quiet_andthen:
  assumes "quiet m" and "\<And>x. quiet (f x)"
  shows "quiet (andthen m f)"
proof -
  from assms(1) obtain r es where m: "m l = (r, l @ es)" and es: "error_records es = []" for l
    unfolding quiet_def by blast
  show ?thesis
  proof (cases r)
    case (Inl e)
    then have "andthen m f l = (Inl e, l @ es)" for l
      by (simp add: andthen_def m)
    with es show ?thesis unfolding quiet_def by blast
  next
    case (Inr x)
    from assms(2) [of x] obtain r' es' where f: "f x l = (r', l @ es')"
      and es': "error_records es' = []" for l
      unfolding quiet_def by blast
    have "andthen m f l = (r', l @ (es @ es'))" for l
      by (simp add: andthen_def m Inr f)
    moreover have "error_records (es @ es') = []"
      by (simp add: es es')
    ultimately show ?thesis unfolding quiet_def by blast
  qed
qed

lemma quiet_if: "quiet a \<Longrightarrow> quiet b \<Longrightarrow> quiet (if c then a else b)"
  by simp

lemmas quiet_intros =
  quiet_returns quiet_raises quiet_call quiet_andthen quiet_if

lemma quiet_validate: "quiet (validate_pdf_file w cfg file_path)"
  unfolding validate_pdf_file_def Let_def
  by (intro quiet_intros quiet_logger) simp

lemma quiet_check: "quiet (check_not_encrypted file_path encrypted)"
  unfolding check_not_encrypted_def
  by (intro quiet_intros quiet_logger) simp

lemma quiet_subscript: "quiet (subscript d key)"
  unfolding subscript_def
  by (cases "d key") (simp_all add: quiet_intros)

lemma quiet_text_loop: "quiet (extract_text_loop cfg n k ps acc)"
proof (induction ps arbitrary: k acc)
  case Nil
  show ?case by (simp add: quiet_returns)
next
  case (Cons page rest)
  show ?case
    unfolding extract_text_loop.simps
    by (intro quiet_intros quiet_logger Cons.IH) simp
qed

lemma quiet_pages_loop: "quiet (extract_pages_loop cfg n k ps acc)"
proof (induction ps arbitrary: k acc)
  case Nil
  show ?case by (simp add: quiet_returns)
next
  case (Cons page rest)
  show ?case
    unfolding extract_pages_loop.simps Let_def
    by (intro quiet_intros quiet_logger Cons.IH) simp
qed

lemma try_except_logs_once:
  assumes "quiet body"
    and "\<And>e. \<exists>msg e'. handler e = andthen (logger ERROR msg) (\<lambda>_. raises e')"
  shows "logs_failure_once (try_except body handler)"
proof -
  from assms(1) obtain r es where b: "body l = (r, l @ es)" and es: "error_records es = []" for l
    unfolding quiet_def by blast
  show ?thesis
  proof (cases r)
    case (Inl e)
    from assms(2) [of e] obtain msg e' where
      h: "handler e = andthen (logger ERROR msg) (\<lambda>_. raises e')"
      by blast
    have "try_except body handler l = (Inl e', l @ (es @ [(ERROR, msg)]))" for l
      by (simp add: try_except_def b Inl h andthen_def logger_def raises_def)
    moreover have "length (error_records (es @ [(ERROR, msg)])) = (if isl (Inl e' :: pyexn + 'a) then 1 else 0)"
      by (simp add: es) (simp add: error_records_def)
    ultimately show ?thesis unfolding logs_failure_once_def by blast
  next
    case (Inr x)
    then have "try_except body handler l = (Inr x, l @ es)" for l
      by (simp add: try_except_def b)
    moreover have "length (error_records es) = (if isl (Inr x :: pyexn + 'a) then 1 else 0)"
      by (simp add: es)
    ultimately show ?thesis unfolding logs_failure_once_def by blast
  qed
qed

lemma handler_shape:
  "\<exists>msg e'.
     (case e of
        FileNotFoundError m \<Rightarrow> andthen (logger ERROR (a m)) (\<lambda>_. raises (x m))
      | ValueError m \<Rightarrow> andthen (logger ERROR (b m)) (\<lambda>_. raises (y m))
      | OtherException m \<Rightarrow> andthen (logger ERROR (c m)) (\<lambda>_. raises (z m))
      | Exception m \<Rightarrow> andthen (logger ERROR (d m)) (\<lambda>_. raises (u m)))
     = andthen (logger ERROR msg) (\<lambda>_. raises e')"
  by (cases e) auto

lemma extract_text_from_pdf_logs_once:
  "logs_failure_once (extract_text_from_pdf w cfg file_path)"
  unfolding extract_text_from_pdf_def Let_def
  by (rule try_except_logs_once)
     (intro quiet_intros quiet_logger quiet_validate quiet_check quiet_text_loop handler_shape
        log_level.distinct)+

lemma extract_text_by_pages_logs_once:
  "logs_failure_once (extract_text_by_pages w cfg file_path)"
  unfolding extract_text_by_pages_def Let_def
  by (rule try_except_logs_once)
     (intro quiet_intros quiet_logger quiet_validate quiet_check quiet_pages_loop handler_shape
        log_level.distinct)+

lemma get_pdf_metadata_logs_once:
  "logs_failure_once (get_pdf_metadata w cfg file_path)"
  unfolding get_pdf_metadata_def Let_def
  by (rule try_except_logs_once)
     (intro quiet_intros quiet_logger quiet_validate quiet_subscript handler_shape
        log_level.distinct)+

section \<open>Whitespace normalisation\<close>

declare py_split.simps [simp del]

lemma isspace_space [simp]: "isspace (CHR '' '')"
  by (simp add: isspace_def)

lemma py_split_Nil [simp]: "py_split [] = []"
  by (simp add: py_split.simps [of "[]"])

lemma py_split_lstrip: "py_split (dropWhile isspace s) = py_split s"
  by (simp add: py_split.simps [of "dropWhile isspace s"] py_split.simps [of s]
        dropWhile_dropWhile1)

lemma py_split_word:
  "\<not> isspace c \<Longrightarrow>
     py_split (c # cs) =
       (c # takeWhile (\<lambda>x. \<not> isspace x) cs) # py_split (dropWhile (\<lambda>x. \<not> isspace x) cs)"
  by (simp add: py_split.simps [of "c # cs"])

lemma py_join_Cons:
  "py_join sep (x # xs) = (if xs = [] then x else x @ sep @ py_join sep xs)"
  by (cases xs) simp_all

lemma py_join_split_empty: "(py_join sep (py_split s) = []) = (py_split s = [])"
proof (cases "dropWhile isspace s")
  case Nil
  have "py_split s = []"
    by (subst py_split.simps) (simp only: Nil list.case)
  then show ?thesis by simp
next
  case (Cons c cs)
  have "py_split s =
          (c # takeWhile (\<lambda>x. \<not> isspace x) cs) # py_split (dropWhile (\<lambda>x. \<not> isspace x) cs)"
    by (subst py_split.simps) (simp only: Cons list.case)
  then show ?thesis by (simp add: py_join_Cons)
qed

lemma collapse_word:
  "\<forall>x \<in> set a. \<not> isspace x \<Longrightarrow>
     collapse_whitespace_runs (a @ b) = a @ collapse_whitespace_runs b"
  by (induction a) simp_all

lemma lstrip_collapse_stripped:
  "t = [] \<or> \<not> isspace (hd t) \<Longrightarrow>
     dropWhile isspace (collapse_whitespace_runs t) = collapse_whitespace_runs t"
  by (cases t) auto

lemma stripped_dropWhile:
  "dropWhile isspace s = [] \<or> \<not> isspace (hd (dropWhile isspace s))"
  using hd_dropWhile [of isspace s] by blast

lemma lstrip_collapse:
  "dropWhile isspace (collapse_whitespace_runs s)
     = collapse_whitespace_runs (dropWhile isspace s)"
proof (cases s)
  case Nil
  then show ?thesis by simp
next
  case (Cons c cs)
  show ?thesis
  proof (cases "isspace c")
    case True
    with Cons show ?thesis
      by (simp add: lstrip_collapse_stripped [OF stripped_dropWhile])
  next
    case False
    with Cons show ?thesis by simp
  qed
qed

lemma rstrip_Nil [simp]: "rstrip [] = []"
  by (simp add: rstrip_def)

lemma rstrip_append:
  "rstrip (a @ b) = (if rstrip b = [] then rstrip a else a @ rstrip b)"
  by (auto simp: rstrip_def dropWhile_append)

lemma rstrip_word:
  assumes "\<forall>x \<in> set a. \<not> isspace x"
  shows "rstrip a = a"
proof -
  have "dropWhile isspace (rev a) = rev a"
    by (rule dropWhile_id) (use assms in auto)
  then show ?thesis by (simp add: rstrip_def)
qed

lemma rstrip_word_space:
  "\<forall>x \<in> set a. \<not> isspace x \<Longrightarrow> rstrip (a @ '' '') = a"
  by (simp add: rstrip_append [of a] rstrip_word) (simp add: rstrip_def)

lemma rstrip_collapse_stripped:
  "t = [] \<or> \<not> isspace (hd t) \<Longrightarrow>
     rstrip (collapse_whitespace_runs t) = py_join '' '' (py_split t)"
proof (induction t rule: length_induct)
  case (1 t)
  show ?case
  proof (cases t)
    case Nil
    then show ?thesis by simp
  next
    case (Cons c cs)
    with "1.prems" have c: "\<not> isspace c" by simp
    define word where "word = c # takeWhile (\<lambda>x. \<not> isspace x) cs"
    define rest where "rest = dropWhile (\<lambda>x. \<not> isspace x) cs"
    have t: "t = word @ rest"
      by (simp add: Cons word_def rest_def)
    have word: "\<forall>x \<in> set word. \<not> isspace x"
      using c by (auto simp: word_def dest: set_takeWhileD)
    have split_t: "py_split t = word # py_split rest"
      using c by (simp add: Cons py_split_word word_def rest_def)
    have collapse_t: "collapse_whitespace_runs t = word @ collapse_whitespace_runs rest"
      unfolding t by (rule collapse_word [OF word])
    show ?thesis
    proof (cases rest)
      case Nil
      then show ?thesis
        by (simp add: split_t collapse_t rstrip_word [OF word])
    next
      case rest: (Cons x r)
      have x: "isspace x"
        using rest unfolding rest_def by (simp add: dropWhile_eq_Cons_conv)
      define u where "u = dropWhile isspace r"
      have "length u \<le> length r"
        unfolding u_def by (rule length_dropWhile_le)
      moreover have "length rest \<le> length cs"
        unfolding rest_def by (rule length_dropWhile_le)
      ultimately have "length u < length t"
        by (simp add: rest Cons)
      moreover have "u = [] \<or> \<not> isspace (hd u)"
        unfolding u_def by (rule stripped_dropWhile)
      ultimately have IH: "rstrip (collapse_whitespace_runs u) = py_join '' '' (py_split u)"
        using "1.IH" by blast
      have split_rest: "py_split rest = py_split u"
        using py_split_lstrip [of rest] x by (simp add: rest u_def)
      have collapse_rest:
        "collapse_whitespace_runs rest = '' '' @ collapse_whitespace_runs u"
        using x by (simp add: rest u_def)
      have "rstrip (collapse_whitespace_runs t)
              = rstrip ((word @ '' '') @ collapse_whitespace_runs u)"
        by (simp add: collapse_t collapse_rest)
      also have "\<dots> = (if py_split u = [] then word
                        else word @ '' '' @ py_join '' '' (py_split u))"
        by (simp only: rstrip_append [of "word @ '' ''"] IH py_join_split_empty
              rstrip_word_space [OF word]) simp
      also have "\<dots> = py_join '' '' (py_split t)"
        by (simp add: split_t split_rest py_join_Cons)
      finally show ?thesis .
    qed
  qed
qed

lemma join_split_is_collapse_and_trim:
  "py_join '' '' (py_split s) = trim_whitespace (collapse_whitespace_runs s)"
proof -
  have "trim_whitespace (collapse_whitespace_runs s)
          = rstrip (collapse_whitespace_runs (dropWhile isspace s))"
    by (simp add: trim_whitespace_def lstrip_collapse)
  also have "\<dots> = py_join '' '' (py_split (dropWhile isspace s))"
    by (rule rstrip_collapse_stripped [OF stripped_dropWhile])
  also have "\<dots> = py_join '' '' (py_split s)"
    by (simp only: py_split_lstrip)
  finally show ?thesis by simp
qed

section \<open>Pages and sample documents\<close>

lemma first_failure_raw_pages [simp]: "first_failure (raw_pages texts) = None"
  by (induction texts) (simp_all add: raw_pages_def)

lemma page_texts_raw_pages [simp]: "page_texts (raw_pages texts) = texts"
  by (induction texts) (simp_all add: raw_pages_def)

lemma length_raw_pages [simp]: "length (raw_pages texts) = length texts"
  by (simp add: raw_pages_def)

lemma length_page_records [simp]: "length (page_records cfg k ts) = length ts"
  by (induction ts arbitrary: k) simp_all

lemma text_page_records:
  "map text (page_records cfg k ts) = map (remove_extra_whitespace cfg) ts"
  by (induction ts arbitrary: k) simp_all

lemma page_number_page_records:
  "map page_number (page_records cfg k ts) = [k..<k + length ts]"
  by (induction ts arbitrary: k) (simp_all add: upt_rec)

lemma char_count_page_records:
  "map char_count (page_records cfg k ts) = map length (map text (page_records cfg k ts))"
  by (induction ts arbitrary: k) simp_all

lemma passes_validation_iff:
  "passes_validation w cfg file_path =
     (path_exists w file_path
      \<and> py_lower (snd (splitext file_path)) \<in> set (SUPPORTED_EXTENSIONS cfg)
      \<and> file_size_mb w file_path \<le> of_nat (MAX_FILE_SIZE_MB cfg))"
  unfolding passes_validation_def validation_outcome_def
  by (simp only: validate_cases) auto

lemma sample_file_passes:
  "passes_validation (world_with reader) config_py ''a.pdf''"
  by (simp add: passes_validation_iff world_with_def config_py_def file_size_mb_def
        py_lower_def py_lower_char_def splitext_def rfind_def slice_def)

lemma normalized_texts:
  "REMOVE_EXTRA_WHITESPACE cfg \<Longrightarrow>
     map (remove_extra_whitespace cfg) texts
       = map (\<lambda>t. trim_whitespace (collapse_whitespace_runs t)) texts"
  by (simp add: remove_extra_whitespace_def join_split_is_collapse_and_trim)

lemma sample_reader_opens: "PdfReader (world_with reader) file_path = Inr reader"
  by (simp add: world_with_def)

lemma sample_pages: "pages sample_reader = Inr (raw_pages [''  Hello   World '', ''two''])"
  by (simp add: sample_reader_def raw_pages_def)

lemma sample_normalized:
  "remove_extra_whitespace config_py ''  Hello   World '' = ''Hello World''"
  "remove_extra_whitespace config_py ''two'' = ''two''"
  by code_simp+

lemma metadata_fields_loop_other:
  "key \<notin> set fs \<Longrightarrow> metadata_fields_loop fs d md key = md key"
  by (induction fs arbitrary: md) (auto split: option.splits)

lemma extract_pdf_metadata_other:
  "key \<notin> set (METADATA_FIELDS cfg) \<Longrightarrow> extract_pdf_metadata cfg info md key = md key"
  by (simp add: extract_pdf_metadata_def metadata_fields_loop_other split: option.splits)

lemma empty_document_pages: "pages empty_document = Inr (raw_pages [])"
  by (simp add: empty_document_def raw_pages_def)

lemma sample_trimmed:
  "trim_whitespace (collapse_whitespace_runs ''  Hello   World '') = ''Hello World''"
  "trim_whitespace (collapse_whitespace_runs ''two'') = ''two''"
  by code_simp+

lemma value_error_reader_failures:
  "reader_failure_text (world_with value_error_reader) ''a.pdf'' = Some (ValueError ''bad page'')"
  "reader_failure_metadata (world_with value_error_reader) ''a.pdf''
     = Some (ValueError ''bad info'')"
  by (simp_all add: reader_failure_text_def reader_failure_metadata_def world_with_def
        value_error_reader_def)

lemma broken_reader_failures:
  "reader_failure_text (world_with broken_reader) ''a.pdf''
     = Some (OtherException ''EOF marker not found'')"
  "reader_failure_metadata (world_with broken_reader) ''a.pdf''
     = Some (OtherException ''bad info'')"
  by (simp_all add: reader_failure_text_def reader_failure_metadata_def world_with_def
        broken_reader_def)

section \<open>The validator\<close>

text \<open>
  Claim C1. When the configured extensions are written in lower case (as \<open>['.pdf']\<close> of
  \<open>config.py\<close> is), \<open>validate_pdf_file\<close> returns \<open>True\<close> exactly when the path
  exists, its extension is one of the configured extensions up to the case of letters,
  and its size in megabytes is at most the configured maximum. It raises
  \<open>FileNotFoundError\<close> when the path does not exist, whatever its extension, and
  \<open>ValueError\<close> when the path exists and the extension is not supported or the size
  exceeds the maximum.
\<close>

theorem validate_contract:
  assumes "list_all (\<lambda>e. py_lower e = e) (SUPPORTED_EXTENSIONS cfg)"
  shows "(fst (validate_pdf_file w cfg file_path l) = Inr True)
           = (path_exists w file_path \<and> extension_supported cfg file_path
                \<and> size_within_limit w cfg file_path)
         \<and> (\<not> path_exists w file_path \<longrightarrow>
               fst (validate_pdf_file w cfg file_path l)
                 = Inl (FileNotFoundError (''File not found: '' @ file_path)))
         \<and> (path_exists w file_path
              \<and> (\<not> extension_supported cfg file_path \<or> \<not> size_within_limit w cfg file_path) \<longrightarrow>
               (\<exists>m. fst (validate_pdf_file w cfg file_path l) = Inl (ValueError m)))"
  unfolding extension_supported_iff [OF assms] size_within_limit_def
  by (auto simp only: validate_cases split: if_splits)

theorem validate_contract_witness:
  "list_all (\<lambda>e. py_lower e = e) (SUPPORTED_EXTENSIONS config_py)
   \<and> fst (validate_pdf_file sample_world config_py ''Report.PDF'' []) = Inr True
   \<and> fst (validate_pdf_file sample_world config_py ''nonexistent.pdf'' [])
       = Inl (FileNotFoundError ''File not found: nonexistent.pdf'')
   \<and> (\<exists>m. fst (validate_pdf_file sample_world config_py ''notes.txt'' []) = Inl (ValueError m))
   \<and> (\<exists>m. fst (validate_pdf_file sample_world config_py ''big.pdf'' []) = Inl (ValueError m))"
proof -
  have c: "list_all (\<lambda>e. py_lower e = e) (SUPPORTED_EXTENSIONS config_py)"
    by (simp add: config_py_def py_lower_def py_lower_char_def)
  have 1: "path_exists sample_world ''Report.PDF'' \<and> extension_supported config_py ''Report.PDF''
             \<and> size_within_limit sample_world config_py ''Report.PDF''"
    by code_simp
  have 2: "\<not> path_exists sample_world ''nonexistent.pdf''"
    by code_simp
  have 3: "path_exists sample_world ''notes.txt'' \<and> \<not> extension_supported config_py ''notes.txt''"
    by code_simp
  have 4: "path_exists sample_world ''big.pdf'' \<and> \<not> size_within_limit sample_world config_py ''big.pdf''"
    by (simp add: sample_world_def world_with_def size_within_limit_def file_size_mb_def config_py_def)
  show ?thesis
    using c 1 2 3 4
      validate_contract [OF c, of sample_world "''Report.PDF''" "[]"]
      validate_contract [OF c, of sample_world "''nonexistent.pdf''" "[]"]
      validate_contract [OF c, of sample_world "''notes.txt''" "[]"]
      validate_contract [OF c, of sample_world "''big.pdf''" "[]"]
    by (simp del: fst_validate)
qed

text \<open>
  Claim C9. Whenever \<open>validate_pdf_file\<close> returns, it returns \<open>True\<close>: no path of
  the function returns \<open>False\<close>.
\<close>

theorem validate_returns_True:
  "fst (validate_pdf_file w cfg file_path l) = Inr b \<Longrightarrow> b"
  by (simp only: validate_cases split: if_splits) auto

theorem validate_returns_True_witness:
  "\<exists>b. fst (validate_pdf_file sample_world config_py ''a.pdf'' []) = Inr b \<and> b"
proof -
  have r: "fst (validate_pdf_file sample_world config_py ''a.pdf'' []) = Inr True"
    using sample_file_passes [of sample_reader]
    by (simp add: passes_validation_def sample_world_def)
  from validate_returns_True [OF r] r show ?thesis by blast
qed

section \<open>Text extraction\<close>

text \<open>
  Claim C2. For a file that passes validation and is opened as a document that is not
  encrypted and whose pages all yield text, \<open>extract_text_by_pages\<close> returns records
  whose \<open>text\<close> fields are the page texts under the configured whitespace policy, and
  joining these fields with the configured separator (two newlines when
  \<open>PRESERVE_LINE_BREAKS\<close>, one space otherwise) gives exactly the string that
  \<open>extract_text_from_pdf\<close> returns for the same file.
\<close>

theorem pages_join_to_full_text:
  assumes "passes_validation w cfg file_path"
    and "PdfReader w file_path = Inr reader"
    and "is_encrypted reader = Inr False"
    and "pages reader = Inr (raw_pages texts)"
  shows "\<exists>pages_data.
           fst (extract_text_by_pages w cfg file_path l) = Inr pages_data
         \<and> map text pages_data = map (remove_extra_whitespace cfg) texts
         \<and> fst (extract_text_from_pdf w cfg file_path l')
             = Inr (py_join (if PRESERVE_LINE_BREAKS cfg then ''\<newline>\<newline>'' else '' '')
                     (map text pages_data))"
  using assms
  by (simp add: fst_extract_text_by_pages fst_extract_text_from_pdf passes_validation_def
        text_page_records separator_def)

theorem pages_join_to_full_text_witness:
  "passes_validation sample_world config_py ''a.pdf''
   \<and> PdfReader sample_world ''a.pdf'' = Inr sample_reader
   \<and> is_encrypted sample_reader = Inr False
   \<and> pages sample_reader = Inr (raw_pages [''  Hello   World '', ''two''])
   \<and> (\<exists>pages_data.
         fst (extract_text_by_pages sample_world config_py ''a.pdf'' []) = Inr pages_data
       \<and> map text pages_data = [''Hello World'', ''two'']
       \<and> fst (extract_text_from_pdf sample_world config_py ''a.pdf'' [])
           = Inr ''Hello World\<newline>\<newline>two'')"
proof -
  have v: "passes_validation sample_world config_py ''a.pdf''"
    unfolding sample_world_def by (rule sample_file_passes)
  have r: "PdfReader sample_world ''a.pdf'' = Inr sample_reader"
    unfolding sample_world_def by (rule sample_reader_opens)
  have e: "is_encrypted sample_reader = Inr False"
    by (simp add: sample_reader_def)
  obtain pages_data where
    1: "fst (extract_text_by_pages sample_world config_py ''a.pdf'' []) = Inr pages_data"
    and 2: "map text pages_data
              = map (remove_extra_whitespace config_py) [''  Hello   World '', ''two'']"
    and 3: "fst (extract_text_from_pdf sample_world config_py ''a.pdf'' [])
              = Inr (py_join (if PRESERVE_LINE_BREAKS config_py then ''\<newline>\<newline>'' else '' '')
                      (map text pages_data))"
    using pages_join_to_full_text [OF v r e sample_pages, of "[]" "[]"] by blast
  have texts: "map text pages_data = [''Hello World'', ''two'']"
    using 2 by (simp add: sample_normalized)
  have full: "fst (extract_text_from_pdf sample_world config_py ''a.pdf'' [])
              = Inr ''Hello World\<newline>\<newline>two''"
    using 3 unfolding texts by (simp add: config_py_def)
  from v r e sample_pages 1 texts full show ?thesis by (iprover intro: conjI exI)
qed

text \<open>
  Claim C3. For such a document, the list that \<open>extract_text_by_pages\<close> returns has as
  many records as the \<open>page_count\<close> field that \<open>get_pdf_metadata\<close> returns, and the
  \<open>page_number\<close> fields are 1, 2, ..., \<open>page_count\<close> in this order. (\<open>page_count\<close> is not
  one of the configured metadata fields, which would overwrite it.)
\<close>

theorem pages_match_page_count:
  assumes "passes_validation w cfg file_path"
    and "PdfReader w file_path = Inr reader"
    and "is_encrypted reader = Inr False"
    and "pages reader = Inr (raw_pages texts)"
    and "metadata reader = Inr info"
    and "''page_count'' \<notin> set (METADATA_FIELDS cfg)"
  shows "\<exists>pages_data md.
           fst (extract_text_by_pages w cfg file_path l) = Inr pages_data
         \<and> fst (get_pdf_metadata w cfg file_path l') = Inr md
         \<and> md ''page_count'' = Some (PyInt (length pages_data))
         \<and> map page_number pages_data = [1..<Suc (length pages_data)]
         \<and> length pages_data = length texts"
  using assms
  by (simp add: fst_extract_text_by_pages fst_get_pdf_metadata passes_validation_def
        page_number_page_records extract_pdf_metadata_other basic_metadata_def)

theorem pages_match_page_count_witness:
  "passes_validation sample_world config_py ''a.pdf''
   \<and> PdfReader sample_world ''a.pdf'' = Inr sample_reader
   \<and> is_encrypted sample_reader = Inr False
   \<and> pages sample_reader = Inr (raw_pages [''  Hello   World '', ''two''])
   \<and> metadata sample_reader = Inr (Some [(''/Title'', ''Sample'')])
   \<and> ''page_count'' \<notin> set (METADATA_FIELDS config_py)
   \<and> (\<exists>pages_data md.
         fst (extract_text_by_pages sample_world config_py ''a.pdf'' []) = Inr pages_data
       \<and> fst (get_pdf_metadata sample_world config_py ''a.pdf'' []) = Inr md
       \<and> md ''page_count'' = Some (PyInt 2)
       \<and> map page_number pages_data = [1, 2])"
proof -
  have v: "passes_validation sample_world config_py ''a.pdf''"
    unfolding sample_world_def by (rule sample_file_passes)
  have r: "PdfReader sample_world ''a.pdf'' = Inr sample_reader"
    unfolding sample_world_def by (rule sample_reader_opens)
  have e: "is_encrypted sample_reader = Inr False"
    by (simp add: sample_reader_def)
  have i: "metadata sample_reader = Inr (Some [(''/Title'', ''Sample'')])"
    by (simp add: sample_reader_def)
  have k: "''page_count'' \<notin> set (METADATA_FIELDS config_py)"
    by (simp add: config_py_def)
  obtain pages_data md where
    1: "fst (extract_text_by_pages sample_world config_py ''a.pdf'' []) = Inr pages_data"
    and 2: "fst (get_pdf_metadata sample_world config_py ''a.pdf'' []) = Inr md"
    and 3: "md ''page_count'' = Some (PyInt (length pages_data))"
    and 4: "map page_number pages_data = [1..<Suc (length pages_data)]"
    and 5: "length pages_data = length [''  Hello   World '', ''two'']"
    using pages_match_page_count [OF v r e sample_pages i k, of "[]" "[]"] by blast
  have n: "length pages_data = 2"
    using 5 by simp
  have count: "md ''page_count'' = Some (PyInt 2)"
    using 3 n by simp
  have numbers: "map page_number pages_data = [1, 2]"
    using 4 n by (simp add: upt_rec)
  from v r e sample_pages i k 1 2 count numbers show ?thesis by (iprover intro: conjI exI)
qed

text \<open>
  Claim C6. With \<open>REMOVE_EXTRA_WHITESPACE\<close>, \<open>extract_text_from_pdf\<close> returns the page
  texts, each with every run of whitespace collapsed to one space and with leading and
  trailing whitespace trimmed, joined with two newlines when \<open>PRESERVE_LINE_BREAKS\<close> and
  with one space otherwise. A document without pages gives the empty string.
\<close>

theorem full_text_normalized:
  assumes "passes_validation w cfg file_path"
    and "PdfReader w file_path = Inr reader"
    and "is_encrypted reader = Inr False"
    and "pages reader = Inr (raw_pages texts)"
    and "REMOVE_EXTRA_WHITESPACE cfg"
  shows "fst (extract_text_from_pdf w cfg file_path l)
           = Inr (py_join (if PRESERVE_LINE_BREAKS cfg then ''\<newline>\<newline>'' else '' '')
                   (map (\<lambda>t. trim_whitespace (collapse_whitespace_runs t)) texts))
         \<and> (texts = [] \<longrightarrow> fst (extract_text_from_pdf w cfg file_path l) = Inr [])"
  using assms
  by (simp add: fst_extract_text_from_pdf passes_validation_def separator_def
        normalized_texts)

theorem full_text_normalized_witness:
  "passes_validation sample_world config_py ''a.pdf''
   \<and> PdfReader sample_world ''a.pdf'' = Inr sample_reader
   \<and> is_encrypted sample_reader = Inr False
   \<and> pages sample_reader = Inr (raw_pages [''  Hello   World '', ''two''])
   \<and> REMOVE_EXTRA_WHITESPACE config_py
   \<and> fst (extract_text_from_pdf sample_world config_py ''a.pdf'' [])
       = Inr ''Hello World\<newline>\<newline>two''
   \<and> fst (extract_text_from_pdf sample_world (config_py\<lparr>PRESERVE_LINE_BREAKS := False\<rparr>)
            ''a.pdf'' [])
       = Inr ''Hello World two''
   \<and> pages empty_document = Inr (raw_pages [])
   \<and> fst (extract_text_from_pdf (world_with empty_document) config_py ''a.pdf'' []) = Inr []"
proof -
  have v: "passes_validation sample_world config_py ''a.pdf''"
    unfolding sample_world_def by (rule sample_file_passes)
  have r: "PdfReader sample_world ''a.pdf'' = Inr sample_reader"
    unfolding sample_world_def by (rule sample_reader_opens)
  have e: "is_encrypted sample_reader = Inr False"
    by (simp add: sample_reader_def)
  have c: "REMOVE_EXTRA_WHITESPACE config_py"
    by (simp add: config_py_def)
  have v': "passes_validation sample_world (config_py\<lparr>PRESERVE_LINE_BREAKS := False\<rparr>) ''a.pdf''"
    using v by (simp add: passes_validation_iff)
  have c': "REMOVE_EXTRA_WHITESPACE (config_py\<lparr>PRESERVE_LINE_BREAKS := False\<rparr>)"
    by (simp add: config_py_def)
  have t: "map (\<lambda>t. trim_whitespace (collapse_whitespace_runs t)) [''  Hello   World '', ''two'']
             = [''Hello World'', ''two'']"
    by (simp only: list.map sample_trimmed)
  have e0: "is_encrypted empty_document = Inr False"
    by (simp add: empty_document_def)
  have 1: "fst (extract_text_from_pdf sample_world config_py ''a.pdf'' [])
             = Inr ''Hello World\<newline>\<newline>two''"
    using full_text_normalized [OF v r e sample_pages c, of "[]"]
    unfolding t by (simp add: config_py_def)
  have 2: "fst (extract_text_from_pdf sample_world (config_py\<lparr>PRESERVE_LINE_BREAKS := False\<rparr>)
                  ''a.pdf'' [])
             = Inr ''Hello World two''"
    using full_text_normalized [OF v' r e sample_pages c', of "[]"]
    unfolding t by simp
  have 3: "fst (extract_text_from_pdf (world_with empty_document) config_py ''a.pdf'' []) = Inr []"
    using full_text_normalized [OF sample_file_passes sample_reader_opens e0
        empty_document_pages c, of "[]"]
    by simp
  from v r e sample_pages c 1 2 empty_document_pages 3 show ?thesis
    by (iprover intro: conjI)
qed

section \<open>Encrypted documents\<close>




section \<open>Metadata fields\<close>

lemma metadata_fields_loop_field:
  "field \<in> set fs \<Longrightarrow>
     metadata_fields_loop fs d md field
       = Some (case map_of d (field_key field) of Some v \<Rightarrow> PyStr v | None \<Rightarrow> PyNone)"
proof (induction fs arbitrary: md)
  case Nil
  then show ?case by simp
next
  case (Cons f fs)
  show ?case
  proof (cases "field \<in> set fs")
    case True
    then show ?thesis by (simp add: Cons.IH)
  next
    case False
    with Cons.prems have "f = field" by simp
    with False show ?thesis
      by (simp add: metadata_fields_loop_other split: option.splits)
  qed
qed

lemma present_info_fills_fields:
  assumes "passes_validation w cfg file_path"
    and "PdfReader w file_path = Inr reader"
    and "pages reader = Inr ps"
    and "is_encrypted reader = Inr encrypted"
    and "metadata reader = Inr (Some d)"
    and "d \<noteq> []"
    and "field \<in> set (METADATA_FIELDS cfg)"
  shows "\<exists>md. fst (get_pdf_metadata w cfg file_path l) = Inr md
              \<and> md field
                  = Some (case map_of d (field_key field) of Some v \<Rightarrow> PyStr v | None \<Rightarrow> PyNone)"
  using assms
  by (simp add: fst_get_pdf_metadata passes_validation_def extract_pdf_metadata_def
        metadata_fields_loop_field)

text \<open>
  Claim C5 fails on the code. For a valid file whose document has no document-info
  dictionary (\<open>reader.metadata\<close> is \<open>None\<close>), \<open>get_pdf_metadata\<close> returns a dictionary
  in which none of the configured metadata fields is a key: the loop that would set them
  to \<open>None\<close> is skipped.
\<close>

theorem missing_info_omits_fields:
  "\<exists>md. fst (get_pdf_metadata (world_with document_without_info) config_py ''a.pdf'' []) = Inr md
        \<and> map md (METADATA_FIELDS config_py) = [None, None, None, None, None, None, None]
        \<and> md ''page_count'' = Some (PyInt 1)"
  using sample_file_passes [of document_without_info]
  by (simp add: fst_get_pdf_metadata passes_validation_def world_with_def
        document_without_info_def extract_pdf_metadata_def basic_metadata_def config_py_def)

section \<open>Failures of the reader\<close>

lemma reraised_ValueError [simp]: "reraised c (ValueError m) = ValueError m"
  by (simp add: reraised_def)

lemma reraised_FileNotFoundError [simp]: "reraised c (FileNotFoundError m) = FileNotFoundError m"
  by (simp add: reraised_def)

lemma reraised_OtherException [simp]: "reraised c (OtherException m) = Exception (c @ m)"
  by (simp add: reraised_def)

lemma reraised_Exception [simp]: "reraised c (Exception m) = Exception (c @ m)"
  by (simp add: reraised_def)

lemma text_failure_outcome:
  assumes "passes_validation w cfg file_path"
    and "reader_failure_text w file_path = Some e"
  shows "fst (extract_text_from_pdf w cfg file_path l)
           = Inl (reraised ''Failed to extract text: '' e)"
    and "fst (extract_text_by_pages w cfg file_path l)
           = Inl (reraised ''Failed to extract text by pages: '' e)"
  using assms
  by (auto simp: fst_extract_text_from_pdf fst_extract_text_by_pages passes_validation_def
        reader_failure_text_def split: sum.splits if_splits)

lemma metadata_failure_outcome:
  assumes "passes_validation w cfg file_path"
    and "reader_failure_metadata w file_path = Some e"
  shows "fst (get_pdf_metadata w cfg file_path l)
           = Inl (reraised ''Failed to extract metadata: '' e)"
  using assms
  by (auto simp: fst_get_pdf_metadata passes_validation_def
        reader_failure_metadata_def split: sum.splits if_splits)

text \<open>
  Claim C10. Once validation has passed, a \<open>ValueError\<close> that the reader raises while
  one of the three operations reads the document reaches the caller as it is, with its
  message and not wrapped in an \<open>Exception\<close>.
\<close>

theorem reader_ValueError_propagates:
  assumes "passes_validation w cfg file_path"
  shows "(reader_failure_text w file_path = Some (ValueError m) \<longrightarrow>
            fst (extract_text_from_pdf w cfg file_path l) = Inl (ValueError m)
          \<and> fst (extract_text_by_pages w cfg file_path l) = Inl (ValueError m))
       \<and> (reader_failure_metadata w file_path = Some (ValueError m) \<longrightarrow>
            fst (get_pdf_metadata w cfg file_path l) = Inl (ValueError m))"
  using text_failure_outcome [OF assms, of "ValueError m"]
    metadata_failure_outcome [OF assms, of "ValueError m"]
  by simp

theorem reader_ValueError_propagates_witness:
  "passes_validation (world_with value_error_reader) config_py ''a.pdf''
   \<and> reader_failure_text (world_with value_error_reader) ''a.pdf'' = Some (ValueError ''bad page'')
   \<and> fst (extract_text_from_pdf (world_with value_error_reader) config_py ''a.pdf'' [])
       = Inl (ValueError ''bad page'')
   \<and> fst (extract_text_by_pages (world_with value_error_reader) config_py ''a.pdf'' [])
       = Inl (ValueError ''bad page'')
   \<and> reader_failure_metadata (world_with value_error_reader) ''a.pdf''
       = Some (ValueError ''bad info'')
   \<and> fst (get_pdf_metadata (world_with value_error_reader) config_py ''a.pdf'' [])
       = Inl (ValueError ''bad info'')"
  using reader_ValueError_propagates [OF sample_file_passes,
      of value_error_reader "''bad page''" "[]"]
    reader_ValueError_propagates [OF sample_file_passes,
      of value_error_reader "''bad info''" "[]"]
    sample_file_passes [of value_error_reader] value_error_reader_failures
  by simp

text \<open>
  Claim C7 fails as stated: a \<open>ValueError\<close> of the reader is not a validation or an
  encryption failure, and the operation raises it as it is, not as an \<open>Exception\<close> with
  the operation's context.
\<close>

theorem reader_failure_not_always_wrapped:
  "passes_validation (world_with value_error_reader) config_py ''a.pdf''
   \<and> reader_failure_text (world_with value_error_reader) ''a.pdf'' = Some (ValueError ''bad page'')
   \<and> fst (extract_text_from_pdf (world_with value_error_reader) config_py ''a.pdf'' [])
       = Inl (ValueError ''bad page'')
   \<and> fst (extract_text_from_pdf (world_with value_error_reader) config_py ''a.pdf'' [])
       \<noteq> Inl (Exception ''Failed to extract text: bad page'')"
  using text_failure_outcome(1) [OF sample_file_passes value_error_reader_failures(1), of "[]"]
    sample_file_passes [of value_error_reader] value_error_reader_failures(1)
  by simp

text \<open>
  Claim C7, amended. Once validation has passed, a failure of the reader that is neither
  a \<open>FileNotFoundError\<close> nor a \<open>ValueError\<close> is raised by each of the three operations as
  an \<open>Exception\<close> whose message is the operation's context followed by the message of the
  failure. Whatever the reader raises, the operation raises: no failure of the reader is
  swallowed. And the failure is handled once: an operation that raises has logged exactly
  one \<open>ERROR\<close> record, and one that returns has logged none.
\<close>

theorem reader_failure_wrapped:
  assumes "passes_validation w cfg file_path"
    and "e = OtherException m \<or> e = Exception m"
  shows "(reader_failure_text w file_path = Some e \<longrightarrow>
            fst (extract_text_from_pdf w cfg file_path l)
              = Inl (Exception (''Failed to extract text: '' @ m))
          \<and> fst (extract_text_by_pages w cfg file_path l)
              = Inl (Exception (''Failed to extract text by pages: '' @ m)))
       \<and> (reader_failure_metadata w file_path = Some e \<longrightarrow>
            fst (get_pdf_metadata w cfg file_path l)
              = Inl (Exception (''Failed to extract metadata: '' @ m)))
       \<and> (reader_failure_text w file_path \<noteq> None \<longrightarrow>
            isl (fst (extract_text_from_pdf w cfg file_path l))
          \<and> isl (fst (extract_text_by_pages w cfg file_path l)))
       \<and> (reader_failure_metadata w file_path \<noteq> None \<longrightarrow>
            isl (fst (get_pdf_metadata w cfg file_path l)))
       \<and> logs_failure_once (extract_text_from_pdf w cfg file_path)
       \<and> logs_failure_once (extract_text_by_pages w cfg file_path)
       \<and> logs_failure_once (get_pdf_metadata w cfg file_path)"
  using assms(2) text_failure_outcome [OF assms(1)] metadata_failure_outcome [OF assms(1)]
    extract_text_from_pdf_logs_once [of w cfg file_path]
    extract_text_by_pages_logs_once [of w cfg file_path]
    get_pdf_metadata_logs_once [of w cfg file_path]
  by auto

theorem reader_failure_wrapped_witness:
  "passes_validation (world_with broken_reader) config_py ''a.pdf''
   \<and> reader_failure_text (world_with broken_reader) ''a.pdf''
       = Some (OtherException ''EOF marker not found'')
   \<and> fst (extract_text_from_pdf (world_with broken_reader) config_py ''a.pdf'' [])
       = Inl (Exception ''Failed to extract text: EOF marker not found'')
   \<and> fst (extract_text_by_pages (world_with broken_reader) config_py ''a.pdf'' [])
       = Inl (Exception ''Failed to extract text by pages: EOF marker not found'')
   \<and> reader_failure_metadata (world_with broken_reader) ''a.pdf''
       = Some (OtherException ''bad info'')
   \<and> fst (get_pdf_metadata (world_with broken_reader) config_py ''a.pdf'' [])
       = Inl (Exception ''Failed to extract metadata: bad info'')
   \<and> logs_failure_once (extract_text_from_pdf (world_with broken_reader) config_py ''a.pdf'')"
  using reader_failure_wrapped [OF sample_file_passes,
      of "OtherException ''EOF marker not found''" "''EOF marker not found''" broken_reader "[]"]
    reader_failure_wrapped [OF sample_file_passes,
      of "OtherException ''bad info''" "''bad info''" broken_reader "[]"]
    sample_file_passes [of broken_reader] broken_reader_failures
  by simp

end
